theory Spec2Isabelle
  imports Main
begin

section \<open>Exceptions and printed output\<close>

text \<open>
  Every \<^verbatim>\<open>raise\<close> of \<^verbatim>\<open>Parameter.py\<close>, and every exception of the numpy calls it makes,
  is a value of \<open>error\<close>; a method returns \<open>error + result\<close>. \<open>NoneArray\<close> marks the
  one place where numpy would succeed on \<^verbatim>\<open>None\<close> (building an object array of
  \<^verbatim>\<open>None\<close>), which the element type of this embedding cannot represent.
  Lines written by \<^verbatim>\<open>print\<close> are values of \<open>output\<close>, returned beside the new state.
\<close>

datatype error = ValueError | IndexError | AttributeError | TypeError | KeyError
  | AxisError | NoneArray

datatype "output" = WARNING_one "string option" nat | Cannot_reduce "string option"
  | ERROR_reshape_1D

section \<open>numpy arrays\<close>

text \<open>
  An \<^verbatim>\<open>np.ndarray\<close> is its shape, its elements in row-major (C) order, and its
  \<^verbatim>\<open>writeable\<close> flag: numpy refuses to assign into an array whose flag is off, as the
  view that \<^verbatim>\<open>np.broadcast_to\<close> returns is. A view has the flag of its base, a copy is
  writeable. A well-formed array holds as many elements as its shape says. Apart from
  the flag, arrays are values here: two names never share storage.

  numpy's \<^verbatim>\<open>==\<close> on elements is not reflexive: a NaN is equal to nothing, itself
  included. Which elements are NaN is a parameter \<open>nan\<close> of the comparison.
\<close>

record 'a ndarray =
  shape :: "nat list"
  flat :: "'a list"
  writeable :: bool

definition wf_array :: "'a ndarray \<Rightarrow> bool" where
  "wf_array a = (length (flat a) = prod_list (shape a))"

definition nd_size :: "'a ndarray \<Rightarrow> nat" where
  "nd_size a = prod_list (shape a)"

definition ndim :: "'a ndarray \<Rightarrow> nat" where
  "ndim a = length (shape a)"

definition np_equal :: "('a \<Rightarrow> bool) \<Rightarrow> 'a \<Rightarrow> 'a \<Rightarrow> bool" where
  \<comment> \<open>\<^verbatim>\<open>x == y\<close> on two elements\<close>
  "np_equal nan x y = (x = y \<and> \<not> nan x)"

definition array_equal :: "('a \<Rightarrow> bool) \<Rightarrow> 'a ndarray \<Rightarrow> 'a ndarray \<Rightarrow> bool" where
  \<comment> \<open>\<^verbatim>\<open>np.array_equal\<close>: the same shape, and \<^verbatim>\<open>(a == b).all()\<close>\<close>
  "array_equal nan a b = (shape a = shape b \<and> list_all2 (np_equal nan) (flat a) (flat b))"

definition array1d :: "'a list \<Rightarrow> 'a ndarray" where
  \<comment> \<open>a new one-dimensional array with these elements\<close>
  "array1d xs = \<lparr>shape = [length xs], flat = xs, writeable = True\<rparr>"


definition blocks :: "nat \<Rightarrow> nat \<Rightarrow> 'a list \<Rightarrow> 'a list list" where
  \<comment> \<open>the \<open>d\<close> sub-arrays along axis 0, each of \<open>n\<close> elements\<close>
  "blocks d n xs = map (\<lambda>i. take n (drop (i * n) xs)) [0..<d]"

definition transpose_flat :: "nat \<Rightarrow> nat \<Rightarrow> 'a list \<Rightarrow> 'a list" where
  \<comment> \<open>the elements of an \<open>r \<times> c\<close> matrix, read column by column\<close>
  "transpose_flat r c xs = concat (map (\<lambda>j. map (\<lambda>i. xs ! (i * c + j)) [0..<r]) [0..<c])"

fun ravel_F :: "nat list \<Rightarrow> 'a list \<Rightarrow> 'a list" where
  \<comment> \<open>\<^verbatim>\<open>ravel(order='F')\<close>: the first axis varies fastest\<close>
  "ravel_F [] xs = xs"
| "ravel_F (d # ds) xs =
     transpose_flat d (prod_list ds) (concat (map (ravel_F ds) (blocks d (prod_list ds) xs)))"

definition reshape_F2 :: "'a ndarray \<Rightarrow> nat \<Rightarrow> error + 'a ndarray" where
  \<comment> \<open>\<^verbatim>\<open>a.reshape((-1, c), order='F')\<close>; numpy cannot infer \<open>-1\<close> when \<open>c\<close> is 0 or
      does not divide the size. Of a one-dimensional array the result is a view; of
      an array of higher rank, laid out in C order, it is a copy\<close>
  "reshape_F2 a c =
     (if c = 0 \<or> nd_size a mod c \<noteq> 0 then Inl ValueError
      else Inr \<lparr>shape = [nd_size a div c, c],
                flat = transpose_flat c (nd_size a div c) (ravel_F (shape a) (flat a)),
                writeable = (if ndim a = 1 then writeable a else True)\<rparr>)"

definition get_item0 :: "'a ndarray \<Rightarrow> error + 'a ndarray" where
  \<comment> \<open>\<^verbatim>\<open>a[0]\<close>, a view\<close>
  "get_item0 a =
     (case shape a of
        [] \<Rightarrow> Inl IndexError
      | d # ds \<Rightarrow> if d = 0 then Inl IndexError
                  else Inr \<lparr>shape = ds, flat = take (prod_list ds) (flat a),
                            writeable = writeable a\<rparr>)"

definition ndmin1 :: "'a ndarray \<Rightarrow> 'a ndarray" where
  \<comment> \<open>\<^verbatim>\<open>np.array(a, ndmin=1)\<close>, a copy\<close>
  "ndmin1 a = (if shape a = [] then a\<lparr>shape := [1], writeable := True\<rparr>
               else a\<lparr>writeable := True\<rparr>)"

definition norm_index :: "nat \<Rightarrow> int \<Rightarrow> error + nat" where
  \<comment> \<open>an integer index on an axis of length \<open>d\<close>; negative indices count from the end\<close>
  "norm_index d i =
     (if 0 \<le> i \<and> i < int d then Inr (nat i)
      else if - int d \<le> i \<and> i < 0 then Inr (nat (i + int d))
      else Inl IndexError)"

fun norm_indices :: "nat \<Rightarrow> int list \<Rightarrow> error + nat list" where
  "norm_indices d [] = Inr []"
| "norm_indices d (i # is) =
     (case norm_index d i of
        Inl e \<Rightarrow> Inl e
      | Inr j \<Rightarrow> (case norm_indices d is of Inl e \<Rightarrow> Inl e | Inr js \<Rightarrow> Inr (j # js)))"

definition take_axis0 :: "'a ndarray \<Rightarrow> int list \<Rightarrow> error + 'a ndarray" where
  \<comment> \<open>\<^verbatim>\<open>a[indices]\<close> with a list of integers: a new array of the sub-arrays at these
      positions of axis 0, in the order given\<close>
  "take_axis0 a idx =
     (case shape a of
        [] \<Rightarrow> Inl IndexError
      | d # ds \<Rightarrow>
          (case norm_indices d idx of
             Inl e \<Rightarrow> Inl e
           | Inr js \<Rightarrow>
               Inr \<lparr>shape = length js # ds,
                    flat = concat (map (\<lambda>j. take (prod_list ds) (drop (j * prod_list ds) (flat a))) js),
                    writeable = True\<rparr>))"

fun delete_axis :: "nat \<Rightarrow> nat list \<Rightarrow> nat list \<Rightarrow> 'a list \<Rightarrow> 'a list" where
  "delete_axis k js [] xs = xs"
| "delete_axis 0 js (d # ds) xs =
     concat (map (\<lambda>i. take (prod_list ds) (drop (i * prod_list ds) xs))
                 (filter (\<lambda>i. i \<notin> set js) [0..<d]))"
| "delete_axis (Suc k) js (d # ds) xs =
     concat (map (delete_axis k js ds) (blocks d (prod_list ds) xs))"

definition np_delete :: "'a ndarray \<Rightarrow> int list \<Rightarrow> nat \<Rightarrow> error + 'a ndarray" where
  \<comment> \<open>\<^verbatim>\<open>np.delete(a, indices, axis=axis)\<close> with a list of integers, a new array\<close>
  "np_delete a idx axis =
     (if ndim a \<le> axis then Inl AxisError
      else (case norm_indices (shape a ! axis) idx of
              Inl e \<Rightarrow> Inl e
            | Inr js \<Rightarrow>
                Inr \<lparr>shape = (shape a)[axis := shape a ! axis - length (remdups js)],
                     flat = delete_axis axis js (shape a) (flat a),
                     writeable = True\<rparr>))"

definition broadcastable :: "nat list \<Rightarrow> nat list \<Rightarrow> bool" where
  \<comment> \<open>numpy's rule: shapes are aligned at the last axis; a source axis must have the
      target's length or length 1\<close>
  "broadcastable s t =
     (length s \<le> length t \<and> list_all2 (\<lambda>a b. a = b \<or> a = 1) s (drop (length t - length s) t))"

fun bcast_data :: "nat list \<Rightarrow> nat list \<Rightarrow> 'a list \<Rightarrow> 'a list" where
  "bcast_data (s # ss) (t # ts) xs =
     (if s = t then concat (map (bcast_data ss ts) (blocks s (prod_list ss) xs))
      else concat (replicate t (bcast_data ss ts xs)))"
| "bcast_data ss ts xs = xs"

definition broadcast_to :: "'a ndarray \<Rightarrow> nat list \<Rightarrow> error + 'a ndarray" where
  \<comment> \<open>\<^verbatim>\<open>np.broadcast_to(a, t)\<close>, a read-only view\<close>
  "broadcast_to a t =
     (if broadcastable (shape a) t
      then Inr \<lparr>shape = t,
                flat = bcast_data (replicate (length t - length (shape a)) 1 @ shape a) t (flat a),
                writeable = False\<rparr>
      else Inl ValueError)"

definition transpose_nd :: "'a ndarray \<Rightarrow> 'a ndarray" where
  \<comment> \<open>\<^verbatim>\<open>a.T\<close>: a view with the axes reversed\<close>
  "transpose_nd a = \<lparr>shape = rev (shape a), flat = ravel_F (shape a) (flat a),
                      writeable = writeable a\<rparr>"



section \<open>ParamDimensions\<close>

text \<open>
  The module \<^verbatim>\<open>pyPRMS.Dimensions\<close> is not among the sources. A \<^verbatim>\<open>ParamDimensions\<close> is the
  ordered mapping of the specification: dimension names with their sizes, in insertion
  order, which is the axis order.
\<close>

type_synonym ParamDimensions = "(string \<times> nat) list"

definition dims_keys :: "ParamDimensions \<Rightarrow> string list" where
  \<comment> \<open>Modelled from the spec: \<^verbatim>\<open>ParamDimensions.keys()\<close>, the names in insertion order\<close>
  "dims_keys ds = map fst ds"

definition dims_ndims :: "ParamDimensions \<Rightarrow> nat" where
  \<comment> \<open>Modelled from the spec: \<^verbatim>\<open>ParamDimensions.ndims\<close>, the cardinality\<close>
  "dims_ndims ds = length ds"

fun get_position :: "ParamDimensions \<Rightarrow> string \<Rightarrow> error + nat" where
  \<comment> \<open>Modelled from the spec: \<^verbatim>\<open>ParamDimensions.get_position(name)\<close>, the zero-based axis
      index; an unknown name is a not-found error\<close>
  "get_position [] n = Inl KeyError"
| "get_position (d # ds) n =
     (if fst d = n then Inr 0
      else (case get_position ds n of Inl e \<Rightarrow> Inl e | Inr i \<Rightarrow> Inr (Suc i)))"

definition get_dimsize_by_index :: "ParamDimensions \<Rightarrow> nat \<Rightarrow> error + nat" where
  \<comment> \<open>Modelled from the spec: \<^verbatim>\<open>ParamDimensions.get_dimsize_by_index(i)\<close>\<close>
  "get_dimsize_by_index ds i = (if i < length ds then Inr (snd (ds ! i)) else Inl ValueError)"

definition dims_add :: "ParamDimensions \<Rightarrow> string \<Rightarrow> nat \<Rightarrow> error + ParamDimensions" where
  \<comment> \<open>Modelled from the spec: \<^verbatim>\<open>ParamDimensions.add(name, size)\<close>, which fails if the name
      is already present and appends the dimension otherwise\<close>
  "dims_add ds n s = (if n \<in> set (map fst ds) then Inl ValueError else Inr (ds @ [(n, s)]))"

definition dims_remove :: "ParamDimensions \<Rightarrow> string \<Rightarrow> ParamDimensions" where
  \<comment> \<open>Modelled from the spec: \<^verbatim>\<open>ParamDimensions.remove(name)\<close>\<close>
  "dims_remove ds n = filter (\<lambda>d. fst d \<noteq> n) ds"

definition dims_set_size :: "ParamDimensions \<Rightarrow> string \<Rightarrow> nat \<Rightarrow> error + ParamDimensions" where
  \<comment> \<open>Modelled from the spec: \<^verbatim>\<open>dimensions[name].size = s\<close>; the size of a dimension is
      mutable, an unknown name is a not-found error\<close>
  "dims_set_size ds n s =
     (if n \<in> set (map fst ds) then Inr (map (\<lambda>d. if fst d = n then (n, s) else d) ds)
      else Inl KeyError)"

fun dims_add_all :: "ParamDimensions \<Rightarrow> (string \<times> nat) list \<Rightarrow> error + ParamDimensions" where
  \<comment> \<open>\<^verbatim>\<open>for kk, vv in new_dims.items(): self.dimensions.add(kk, vv.size)\<close>\<close>
  "dims_add_all ds [] = Inr ds"
| "dims_add_all ds (kv # kvs) =
     (case dims_add ds (fst kv) (snd kv) of
        Inl e \<Rightarrow> Inl e
      | Inr ds' \<Rightarrow> dims_add_all ds' kvs)"

section \<open>The Parameter class\<close>

text \<open>
  A bound (\<^verbatim>\<open>minimum\<close>, \<^verbatim>\<open>maximum\<close>, \<^verbatim>\<open>default\<close>) is a number or a string. The module
  \<^verbatim>\<open>pyPRMS.constants\<close> is not among the sources: its two tables are taken as parameters,
  with Python's \<^verbatim>\<open>float()\<close> and \<^verbatim>\<open>int()\<close> on a bound (\<open>None\<close> where they raise
  \<^verbatim>\<open>ValueError\<close>). An entry of \<open>DATATYPE_TO_DTYPE\<close> is the conversion of one element to
  that dtype, and \<open>isnan\<close> tells which elements are NaN.
\<close>

datatype 'a bound = Number 'a | Text string

record 'a env =
  DATA_TYPES :: "nat \<Rightarrow> string option"
  DATATYPE_TO_DTYPE :: "nat \<Rightarrow> ('a \<Rightarrow> 'a) option"
  py_float :: "'a bound \<Rightarrow> 'a option"
  py_int :: "'a bound \<Rightarrow> 'a option"
  isnan :: "'a \<Rightarrow> bool"

record 'a Parameter =
  p_name :: "string option"
  p_datatype :: "nat option"
  p_units :: "string option"
  p_model :: "string option"
  p_description :: "string option"
  p_help :: "string option"
  p_modules :: "string list option"
  p_minimum :: "'a bound option"
  p_maximum :: "'a bound option"
  p_default :: "'a bound option"
  p_dimensions :: ParamDimensions
  p_data :: "'a ndarray option"
  p_modified :: bool


text \<open>
  What the data setter may be handed: a Python list, whose items are scalars or lists
  again, a numpy array, a pandas Series, or anything else. \<^verbatim>\<open>np.array\<close> makes of a list
  the array of its nesting: every item of a list must have the same shape, or numpy
  raises \<^verbatim>\<open>ValueError\<close>.
\<close>

datatype 'a pyval = Scalar 'a | Nested "'a pyval list"

datatype 'a data_in = PyList "'a pyval list" | NdArray "'a ndarray" | Series "'a list" | Other

fun shape_of :: "'a pyval \<Rightarrow> nat list option" where
  "shape_of (Scalar x) = Some []"
| "shape_of (Nested []) = Some [0]"
| "shape_of (Nested (v # vs)) =
     (case shape_of v of
        None \<Rightarrow> None
      | Some s \<Rightarrow> if list_all (\<lambda>w. shape_of w = Some s) vs then Some (Suc (length vs) # s)
                  else None)"

fun elements :: "'a pyval \<Rightarrow> 'a list" where
  "elements (Scalar x) = [x]"
| "elements (Nested vs) = concat (map elements vs)"

definition scalars :: "'a list \<Rightarrow> 'a pyval list" where
  \<comment> \<open>the items of a flat Python list\<close>
  "scalars xs = map Scalar xs"

definition np_array :: "('a \<Rightarrow> 'a) \<Rightarrow> 'a pyval list \<Rightarrow> error + 'a ndarray" where
  \<comment> \<open>\<^verbatim>\<open>np.array(data_in, dtype=...)\<close> on a list, \<open>conv\<close> converting one element\<close>
  "np_array conv vs =
     (case shape_of (Nested vs) of
        None \<Rightarrow> Inl ValueError
      | Some s \<Rightarrow> Inr \<lparr>shape = s, flat = map conv (elements (Nested vs)), writeable = True\<rparr>)"

definition then_do :: "error + 'a \<Rightarrow> ('a \<Rightarrow> error + 'b) \<Rightarrow> error + 'b" where
  \<comment> \<open>sequencing: an exception of the first statement skips the rest\<close>
  "then_do r f = (case r of Inl e \<Rightarrow> Inl e | Inr x \<Rightarrow> f x)"








definition param_size :: "'a Parameter \<Rightarrow> error + nat" where
  \<comment> \<open>the \<^verbatim>\<open>size\<close> property: \<^verbatim>\<open>functools.reduce\<close> without an initial value raises
      \<^verbatim>\<open>TypeError\<close> on an empty sequence\<close>
  "param_size p =
     (case map snd (p_dimensions p) of
        [] \<Rightarrow> Inl TypeError
      | x # xs \<Rightarrow> Inr (foldl (\<lambda>x y. x * y) x xs))"

definition to_numpy :: "'a env \<Rightarrow> 'a Parameter \<Rightarrow> 'a data_in \<Rightarrow> error + 'a ndarray" where
  \<comment> \<open>the conversion of \<^verbatim>\<open>data_in\<close> at the head of the data setter; any other input
      leaves \<^verbatim>\<open>data_np = None\<close>, and \<^verbatim>\<open>data_np.size\<close> raises\<close>
  "to_numpy env p data_in =
     (case data_in of
        PyList xs \<Rightarrow>
          (case p_datatype p of
             None \<Rightarrow> Inl KeyError
           | Some t \<Rightarrow>
               (case DATATYPE_TO_DTYPE env t of
                  None \<Rightarrow> Inl KeyError
                | Some conv \<Rightarrow> np_array conv xs))
      | NdArray a \<Rightarrow> Inr a
      | Series xs \<Rightarrow> Inr (array1d xs)
      | Other \<Rightarrow> Inl AttributeError)"

definition reconcile :: "'a env \<Rightarrow> 'a Parameter \<Rightarrow> 'a data_in \<Rightarrow> error + ('a ndarray \<times> output list)" where
  \<comment> \<open>the data setter up to the point where \<^verbatim>\<open>data_np\<close> is final\<close>
  "reconcile env p data_in =
     (if dims_ndims (p_dimensions p) = 0 then Inl ValueError
      else
        then_do (to_numpy env p data_in) (\<lambda>data_np.
        then_do (param_size p) (\<lambda>sz.
          if nd_size data_np = sz then
            (if ndim data_np < dims_ndims (p_dimensions p) then
               (if ndim data_np \<noteq> 0 then
                  then_do (get_dimsize_by_index (p_dimensions p) 1) (\<lambda>c.
                  then_do (reshape_F2 data_np c) (\<lambda>a. Inr (a, [])))
                else Inr (data_np, []))
             else if ndim data_np = dims_ndims (p_dimensions p) then Inr (data_np, [])
             else Inl ValueError)
          else if sz < nd_size data_np \<and> ''one'' \<in> set (dims_keys (p_dimensions p)) then
            then_do (get_item0 data_np) (\<lambda>a.
              Inr (ndmin1 a, [WARNING_one (p_name p) (nd_size data_np)]))
          else (case data_in of PyList xs \<Rightarrow> Inl AttributeError | _ \<Rightarrow> Inl IndexError))))"

definition data_setter :: "'a env \<Rightarrow> 'a Parameter \<Rightarrow> 'a data_in \<Rightarrow> error + ('a Parameter \<times> output list)" where
  "data_setter env p data_in =
     then_do (reconcile env p data_in) (\<lambda>(data_np, out).
       case p_data p of
         None \<Rightarrow> Inr (p\<lparr>p_data := Some data_np\<rparr>, out)
       | Some old \<Rightarrow>
           if array_equal (isnan env) old data_np then Inr (p, out)
           else Inr (p\<lparr>p_data := Some data_np, p_modified := True\<rparr>, out))"


definition check_values :: "('a::linorder) Parameter \<Rightarrow> error + bool" where
  "check_values p =
     (case (p_minimum p, p_maximum p) of
        (Some (Number lo), Some (Number hi)) \<Rightarrow>
          (case p_data p of
             None \<Rightarrow> Inl TypeError
           | Some a \<Rightarrow> Inr (list_all (\<lambda>x. lo \<le> x) (flat a) \<and> list_all (\<lambda>x. x \<le> hi) (flat a)))
      | _ \<Rightarrow> Inr True)"

definition has_correct_size :: "'a Parameter \<Rightarrow> error + bool" where
  "has_correct_size p =
     (case p_data p of
        None \<Rightarrow> Inl ValueError
      | Some a \<Rightarrow> Inr (nd_size a = foldl (\<lambda>total d. total * snd d) 1 (p_dimensions p)))"

definition tolist :: "'a Parameter \<Rightarrow> error + 'a list" where
  "tolist p =
     (case p_data p of
        None \<Rightarrow> Inl AttributeError
      | Some a \<Rightarrow> Inr (ravel_F (shape a) (flat a)))"

definition remove_by_index :: "'a Parameter \<Rightarrow> string \<Rightarrow> int list \<Rightarrow> error + ('a Parameter \<times> output list)" where
  "remove_by_index p dim_name indices =
     (case p_data p of
        None \<Rightarrow> Inl AttributeError
      | Some a \<Rightarrow>
          if nd_size a = 1 then Inr (p, [Cannot_reduce (p_name p)])
          else
            then_do (get_position (p_dimensions p) dim_name) (\<lambda>pos.
            then_do (np_delete a indices pos) (\<lambda>a'.
              if pos < length (shape a') then
                then_do (dims_set_size (p_dimensions p) dim_name (shape a' ! pos)) (\<lambda>ds.
                  Inr (p\<lparr>p_dimensions := ds, p_data := Some a'\<rparr>, []))
              else Inl IndexError)))"

definition subset_by_index :: "'a Parameter \<Rightarrow> string \<Rightarrow> int list \<Rightarrow> error + ('a Parameter \<times> output list)" where
  "subset_by_index p dim_name indices =
     (case p_data p of
        None \<Rightarrow> Inl AttributeError
      | Some a \<Rightarrow>
          if nd_size a = 1 then Inr (p, [Cannot_reduce (p_name p)])
          else
            then_do (take_axis0 a indices) (\<lambda>a'.
            then_do (get_position (p_dimensions p) dim_name) (\<lambda>pos.
              if pos < length (shape a') then
                then_do (dims_set_size (p_dimensions p) dim_name (shape a' ! pos)) (\<lambda>ds.
                  Inr (p\<lparr>p_dimensions := ds, p_data := Some a'\<rparr>, []))
              else Inl IndexError)))"

definition reshape :: "'a Parameter \<Rightarrow> (string \<times> nat) list \<Rightarrow> error + ('a Parameter \<times> output list)" where
  "reshape p new_dims =
     (if dims_ndims (p_dimensions p) = 1 then
        (if ''one'' \<in> set (dims_keys (p_dimensions p)) then
           (case p_data p of
              None \<Rightarrow> Inl NoneArray
            | Some a \<Rightarrow>
                then_do (broadcast_to a (map snd new_dims)) (\<lambda>tmp_data.
                then_do (dims_add_all (dims_remove (p_dimensions p) ''one'') new_dims) (\<lambda>ds.
                  Inr (p\<lparr>p_dimensions := ds, p_data := Some tmp_data\<rparr>, []))))
         else if set (dims_keys (p_dimensions p)) \<subseteq> set (map fst new_dims) then
           (if length new_dims = 1 then Inr (p, [ERROR_reshape_1D])
            else
              (case p_data p of
                 None \<Rightarrow> Inl NoneArray
               | Some a \<Rightarrow>
                   then_do (case broadcast_to a (map snd new_dims) of
                              Inl e \<Rightarrow> then_do (broadcast_to a (rev (map snd new_dims)))
                                         (\<lambda>b. Inr (transpose_nd b))
                            | Inr b \<Rightarrow> Inr b) (\<lambda>tmp_data.
                   then_do (dims_add_all
                              (dims_remove (p_dimensions p) (hd (dims_keys (p_dimensions p))))
                              new_dims) (\<lambda>ds.
                     Inr (p\<lparr>p_dimensions := ds, p_data := Some tmp_data\<rparr>, [])))))
         else Inr (p, []))
      else Inr (p, []))"

section \<open>Sequences of calls\<close>




section \<open>Integer parameters for the scenarios\<close>

definition is_digit :: "char \<Rightarrow> bool" where
  "is_digit c = (c \<in> set ''0123456789'')"

definition is_space :: "char \<Rightarrow> bool" where
  "is_space c = (c = CHR '' '' \<or> c = CHR 0x09 \<or> c = CHR 0x0A \<or> c = CHR 0x0B
                 \<or> c = CHR 0x0C \<or> c = CHR 0x0D)"

fun digits_value :: "nat \<Rightarrow> string \<Rightarrow> nat option" where
  \<comment> \<open>decimal digits, single underscores allowed between two of them\<close>
  "digits_value acc [] = Some acc"
| "digits_value acc (c # cs) =
     (if is_digit c then digits_value (10 * acc + (of_char c - 48)) cs
      else if c = CHR ''_'' \<and> cs \<noteq> [] \<and> is_digit (hd cs) then digits_value acc cs
      else None)"

definition unsigned_literal :: "string \<Rightarrow> nat option" where
  "unsigned_literal s = (if s \<noteq> [] \<and> is_digit (hd s) then digits_value 0 s else None)"

definition int_literal :: "string \<Rightarrow> int option" where
  \<comment> \<open>the strings Python's \<^verbatim>\<open>int()\<close> reads in base 10: white space around an optional
      sign and decimal digits\<close>
  "int_literal s =
     (case rev (dropWhile is_space (rev (dropWhile is_space s))) of
        [] \<Rightarrow> None
      | c # cs \<Rightarrow>
          if c = CHR ''-'' then map_option (\<lambda>n. - int n) (unsigned_literal cs)
          else if c = CHR ''+'' then map_option int (unsigned_literal cs)
          else map_option int (unsigned_literal (c # cs)))"

definition int_env :: "int env" where
  \<comment> \<open>Modelled from the spec: the datatype codes 1 = integer, 2 = float, 3 = double,
      4 = string of \<^verbatim>\<open>pyPRMS.constants\<close>. The elements are integers: the integer dtype
      converts nothing, none is NaN, and \<^verbatim>\<open>float()\<close> is only given on the strings that
      denote an integer\<close>
  "int_env =
     \<lparr>DATA_TYPES = (\<lambda>t. if t = 1 then Some ''integer'' else if t = 2 then Some ''float''
                        else if t = 3 then Some ''double'' else if t = 4 then Some ''string''
                        else None),
      DATATYPE_TO_DTYPE = (\<lambda>t. if t = 1 then Some (\<lambda>x. x) else None),
      py_float = (\<lambda>b. case b of Number x \<Rightarrow> Some x | Text s \<Rightarrow> int_literal s),
      py_int = (\<lambda>b. case b of Number x \<Rightarrow> Some x | Text s \<Rightarrow> int_literal s),
      isnan = (\<lambda>x. False)\<rparr>"

definition int_param :: "string \<Rightarrow> ParamDimensions \<Rightarrow> int ndarray option \<Rightarrow> int Parameter" where
  \<comment> \<open>an integer parameter with the given dimensions and data, not yet modified\<close>
  "int_param n ds d =
     \<lparr>p_name = Some n, p_datatype = Some 1, p_units = None, p_model = None,
      p_description = None, p_help = None, p_modules = None, p_minimum = None,
      p_maximum = None, p_default = None, p_dimensions = ds, p_data = d,
      p_modified = False\<rparr>"

lemmas setter_defs = data_setter_def reconcile_def to_numpy_def param_size_def
  get_dimsize_by_index_def dims_ndims_def dims_keys_def nd_size_def ndim_def


section \<open>Auxiliary facts\<close>

lemma foldl_mult_prod: "foldl (\<lambda>x y. x * y) (x::nat) xs = x * prod_list xs"
  by (induction xs arbitrary: x) (simp_all add: mult.assoc)

lemma foldl_total_size: "foldl (\<lambda>total d. total * snd d) (t::nat) ds = t * prod_list (map snd ds)"
  by (induction ds arbitrary: t) (simp_all add: mult.assoc)

lemma param_size_prod:
  "p_dimensions p \<noteq> [] \<Longrightarrow> param_size p = Inr (prod_list (map snd (p_dimensions p)))"
  by (cases "p_dimensions p") (simp_all add: param_size_def foldl_mult_prod)

lemma then_do_Inr_iff: "then_do r f = Inr y \<longleftrightarrow> (\<exists>x. r = Inr x \<and> f x = Inr y)"
  by (cases r) (simp_all add: then_do_def)

lemma then_do_Inr [simp]: "then_do (Inr x) f = f x"
  by (simp add: then_do_def)

lemma then_do_Inl [simp]: "then_do (Inl e) f = Inl e"
  by (simp add: then_do_def)

lemma shape_of_scalars: "shape_of (Nested (map Scalar xs)) = Some [length xs]"
  by (induction xs) (simp_all add: list_all_iff)

lemma elements_scalars: "elements (Nested (map Scalar xs)) = xs"
  by (induction xs) simp_all

lemma np_array_scalars: "np_array conv (scalars xs) = Inr (array1d (map conv xs))"
  by (simp add: np_array_def scalars_def array1d_def shape_of_scalars elements_scalars
      del: shape_of.simps elements.simps)

lemma reshape_F2_size: "reshape_F2 a c = Inr b \<Longrightarrow> nd_size b = nd_size a"
  by (auto simp add: reshape_F2_def nd_size_def split: if_splits)

lemma reconcile_cases:
  assumes "reconcile env p d = Inr (b, out)"
  obtains a where "p_dimensions p \<noteq> []" "to_numpy env p d = Inr a"
     "nd_size a = prod_list (map snd (p_dimensions p))" "out = []" "nd_size b = nd_size a"
   | a a0 where "p_dimensions p \<noteq> []" "to_numpy env p d = Inr a"
     "prod_list (map snd (p_dimensions p)) < nd_size a" "''one'' \<in> set (dims_keys (p_dimensions p))"
     "get_item0 a = Inr a0" "b = ndmin1 a0" "out = [WARNING_one (p_name p) (nd_size a)]"
proof -
  from assms have ne: "p_dimensions p \<noteq> []"
    by (auto simp add: reconcile_def dims_ndims_def split: if_splits)
  from assms ne obtain a where a: "to_numpy env p d = Inr a"
    by (cases "to_numpy env p d") (auto simp add: reconcile_def dims_ndims_def)
  show thesis
  proof (cases "nd_size a = prod_list (map snd (p_dimensions p))")
    case True
    with assms ne a have "out = [] \<and> nd_size b = nd_size a"
      by (auto simp add: reconcile_def dims_ndims_def param_size_prod then_do_Inr_iff
          dest: reshape_F2_size split: if_splits)
    with that(1) ne a True show thesis by blast
  next
    case False
    with assms ne a have c: "prod_list (map snd (p_dimensions p)) < nd_size a"
        "''one'' \<in> set (dims_keys (p_dimensions p))"
      by (auto simp add: reconcile_def dims_ndims_def param_size_prod split: if_splits data_in.splits)
    with assms ne a False obtain a0 where "get_item0 a = Inr a0" "b = ndmin1 a0"
        "out = [WARNING_one (p_name p) (nd_size a)]"
      by (auto simp add: reconcile_def dims_ndims_def param_size_prod then_do_Inr_iff)
    with that(2) ne a c show thesis by blast
  qed
qed

lemma data_setter_cases:
  assumes "data_setter env p d = Inr (p', out)"
  obtains b where "reconcile env p d = Inr (b, out)" "p_dimensions p' = p_dimensions p"
    "\<exists>c. p_data p' = Some c \<and> shape c = shape b"
  using assms
  by (auto simp add: data_setter_def then_do_Inr_iff array_equal_def split: option.splits if_splits)

lemma truncated_1d_size:
  "get_item0 a = Inr a0 \<Longrightarrow> ndim a = 1 \<Longrightarrow> nd_size (ndmin1 a0) = 1"
  by (cases "shape a") (auto simp add: get_item0_def ndim_def ndmin1_def nd_size_def split: if_splits)

section \<open>The size invariant after an assignment\<close>

text \<open>
  C1, as amended. After a data assignment that returns normally the stored element
  count equals the product of the declared dimension sizes, so \<^verbatim>\<open>has_correct_size\<close> is
  true, provided the assignment printed no truncation warning, or it did and the
  incoming array was one-dimensional and the declared total size is 1.
\<close>

theorem assignment_has_correct_size:
  assumes "data_setter env p d = Inr (p', out)"
    and "out = [] \<or> (\<exists>a. to_numpy env p d = Inr a \<and> ndim a = 1
                          \<and> prod_list (map snd (p_dimensions p)) = 1)"
  shows "has_correct_size p' = Inr True"
proof -
  from assms(1) obtain b c where r: "reconcile env p d = Inr (b, out)"
    and ds: "p_dimensions p' = p_dimensions p" and c: "p_data p' = Some c" "shape c = shape b"
    by (auto elim: data_setter_cases)
  have "nd_size b = prod_list (map snd (p_dimensions p))"
    using r assms(2) by (elim reconcile_cases) (auto simp add: truncated_1d_size)
  moreover have "nd_size c = nd_size b" using c(2) by (simp add: nd_size_def)
  ultimately show ?thesis using c(1) ds by (simp add: has_correct_size_def foldl_total_size)
qed

theorem assignment_has_correct_size_witness:
  "data_setter int_env (int_param ''poi_type'' [(''npoigages'', 4)] None)
        (PyList (scalars [1, 0, 1, 0]))
     = Inr (int_param ''poi_type'' [(''npoigages'', 4)] (Some (array1d [1, 0, 1, 0])), [])
   \<and> has_correct_size (int_param ''poi_type'' [(''npoigages'', 4)] (Some (array1d [1, 0, 1, 0]))) = Inr True"
proof -
  have eq: "data_setter int_env (int_param ''poi_type'' [(''npoigages'', 4)] None)
        (PyList (scalars [1, 0, 1, 0]))
     = Inr (int_param ''poi_type'' [(''npoigages'', 4)] (Some (array1d [1, 0, 1, 0])), [])"
   by (simp add: setter_defs np_array_scalars int_env_def int_param_def array1d_def)
  show ?thesis using eq assignment_has_correct_size [OF eq] by simp
qed

text \<open>
  The claim as stated fails: a parameter over \<open>one\<close> and \<open>nhru\<close> (total size 4) that is
  assigned five values keeps the first one only, with a warning and no exception, and
  \<^verbatim>\<open>has_correct_size\<close> is false afterwards.
\<close>

theorem truncation_breaks_size_counterexample:
  "data_setter int_env (int_param ''x'' [(''one'', 1), (''nhru'', 4)] None) (NdArray (array1d [1, 2, 3, 4, 5]))
     = Inr (int_param ''x'' [(''one'', 1), (''nhru'', 4)] (Some (array1d [1])), [WARNING_one (Some ''x'') 5])
   \<and> has_correct_size (int_param ''x'' [(''one'', 1), (''nhru'', 4)] (Some (array1d [1]))) = Inr False"
   by (simp add: data_setter_def reconcile_def to_numpy_def int_env_def int_param_def
       param_size_def array1d_def nd_size_def ndim_def dims_ndims_def dims_keys_def get_item0_def ndmin1_def has_correct_size_def)


lemma data_setter_succeeds:
  "reconcile env p d = Inr (b, out) \<Longrightarrow> \<exists>p'. data_setter env p d = Inr (p', out)"
  by (simp add: data_setter_def split: option.splits)

lemma reconcile_truncates:
  assumes "p_dimensions p \<noteq> []" and "to_numpy env p d = Inr a"
    and "prod_list (map snd (p_dimensions p)) < nd_size a"
    and "''one'' \<in> set (dims_keys (p_dimensions p))"
  shows "reconcile env p d
           = then_do (get_item0 a) (\<lambda>a0. Inr (ndmin1 a0, [WARNING_one (p_name p) (nd_size a)]))"
  using assms by (simp add: reconcile_def dims_ndims_def param_size_prod)

lemma get_item0_positive:
  assumes "shape a \<noteq> []" and "0 < nd_size a"
  shows "\<exists>a0. get_item0 a = Inr a0"
  using assms by (cases "shape a") (auto simp add: get_item0_def nd_size_def)

lemma get_item0_1d:
  assumes "shape a = [n]" and "wf_array a" and "0 < n"
  shows "get_item0 a = Inr \<lparr>shape = [], flat = [hd (flat a)], writeable = writeable a\<rparr>"
proof -
  from assms have "length (flat a) = n" by (simp add: wf_array_def)
  with assms(3) have "take (Suc 0) (flat a) = [hd (flat a)]"
    by (cases "flat a") simp_all
  with assms show ?thesis by (simp add: get_item0_def)
qed

section \<open>When the data setter truncates\<close>

text \<open>
  C3, as amended. For incoming data of rank at least 1, the assignment returns
  normally with the truncation warning exactly when the incoming element count
  exceeds the declared total size and \<open>one\<close> is among the dimension names of the
  parameter, alone or not; one-dimensional incoming data is then cut to its first
  element.
\<close>

theorem truncation_condition:
  assumes "p_dimensions p \<noteq> []" and "to_numpy env p d = Inr a" and "shape a \<noteq> []"
  shows "((\<exists>p'. data_setter env p d = Inr (p', [WARNING_one (p_name p) (nd_size a)]))
            \<longleftrightarrow> (prod_list (map snd (p_dimensions p)) < nd_size a
                 \<and> ''one'' \<in> set (dims_keys (p_dimensions p))))
       \<and> (prod_list (map snd (p_dimensions p)) < nd_size a
            \<and> ''one'' \<in> set (dims_keys (p_dimensions p)) \<and> ndim a = 1 \<and> wf_array a
          \<longrightarrow> reconcile env p d
                = Inr (array1d [hd (flat a)], [WARNING_one (p_name p) (nd_size a)]))"
proof -
  let ?c = "prod_list (map snd (p_dimensions p)) < nd_size a
      \<and> ''one'' \<in> set (dims_keys (p_dimensions p))"
  let ?w = "[WARNING_one (p_name p) (nd_size a)]"
  have warned: "?c" if "\<exists>p'. data_setter env p d = Inr (p', ?w)"
  proof -
    from that obtain p' where "data_setter env p d = Inr (p', ?w)" ..
    then obtain b where "reconcile env p d = Inr (b, ?w)"
      by (auto elim: data_setter_cases)
    then show ?thesis using assms(2) by (elim reconcile_cases) auto
  qed
  have taken: "\<exists>p'. data_setter env p d = Inr (p', ?w)" if c: "?c"
  proof -
    from c have "0 < nd_size a" by simp
    with assms(3) obtain a0 where "get_item0 a = Inr a0" using get_item0_positive by blast
    with c assms have "reconcile env p d = Inr (ndmin1 a0, ?w)"
      by (simp add: reconcile_truncates)
    then show ?thesis by (rule data_setter_succeeds)
  qed
  have first: "reconcile env p d = Inr (array1d [hd (flat a)], ?w)"
    if c: "?c" and r: "ndim a = 1" and w: "wf_array a"
  proof -
    from r obtain n where n: "shape a = [n]"
      by (cases "shape a") (auto simp add: ndim_def)
    with c have "0 < n" by (simp add: nd_size_def)
    with n w have "get_item0 a = Inr \<lparr>shape = [], flat = [hd (flat a)], writeable = writeable a\<rparr>"
      by (simp add: get_item0_1d)
    with c assms show ?thesis
      by (simp add: reconcile_truncates ndmin1_def array1d_def)
  qed
  from warned taken first show ?thesis by blast
qed

theorem truncation_condition_witness:
  "[(''one'', 1)] \<noteq> ([] :: ParamDimensions)
   \<and> to_numpy int_env (int_param ''basin_solsta'' [(''one'', 1)] None) (NdArray (array1d [8, 9]))
       = Inr (array1d [8, 9])
   \<and> shape (array1d [8, 9 :: int]) \<noteq> []
   \<and> prod_list (map snd [(''one'', 1 :: nat)]) < nd_size (array1d [8, 9 :: int])
   \<and> ''one'' \<in> set (dims_keys [(''one'', 1)])
   \<and> ndim (array1d [8, 9 :: int]) = 1 \<and> wf_array (array1d [8, 9 :: int])
   \<and> reconcile int_env (int_param ''basin_solsta'' [(''one'', 1)] None) (NdArray (array1d [8, 9]))
       = Inr (array1d [8], [WARNING_one (Some ''basin_solsta'') 2])"
  using truncation_condition
          [of "int_param ''basin_solsta'' [(''one'', 1)] None" int_env "NdArray (array1d [8, 9])"
              "array1d [8, 9]"]
  by (simp add: int_param_def to_numpy_def array1d_def nd_size_def ndim_def wf_array_def
      dims_keys_def)

text \<open>
  The claim as stated fails: a parameter over \<open>nhru\<close> and \<open>one\<close> takes the truncation
  path, because the setter tests that \<open>one\<close> is a key of the dimensions, not that it is
  the only one.
\<close>

theorem one_among_others_truncates_counterexample:
  "data_setter int_env (int_param ''x'' [(''nhru'', 2), (''one'', 1)] None) (NdArray (array1d [7, 8, 9]))
     = Inr (int_param ''x'' [(''nhru'', 2), (''one'', 1)] (Some (array1d [7])),
            [WARNING_one (Some ''x'') 3])"
  by (simp add: data_setter_def reconcile_def to_numpy_def int_param_def
       param_size_def array1d_def nd_size_def ndim_def dims_ndims_def dims_keys_def
       get_item0_def ndmin1_def)

section \<open>Incoming data of higher rank\<close>




section \<open>Singleton arrays are not reduced\<close>

text \<open>
  C7. When the stored array has exactly one element, \<^verbatim>\<open>remove_by_index\<close> and
  \<^verbatim>\<open>subset_by_index\<close> return normally for any dimension name and any indices: they print
  the refusal and leave the whole Parameter, so its data and every dimension size, as
  it was.
\<close>

theorem singleton_edit_refused:
  assumes "p_data p = Some a" and "nd_size a = 1"
  shows "remove_by_index p dim_name indices = Inr (p, [Cannot_reduce (p_name p)])
       \<and> subset_by_index p dim_name indices = Inr (p, [Cannot_reduce (p_name p)])"
  using assms by (simp add: remove_by_index_def subset_by_index_def)

theorem singleton_edit_refused_witness:
  "p_data (int_param ''basin_solsta'' [(''one'', 1)] (Some (array1d [8]))) = Some (array1d [8])
   \<and> nd_size (array1d [8::int]) = 1
   \<and> remove_by_index (int_param ''basin_solsta'' [(''one'', 1)] (Some (array1d [8]))) ''nhru'' [0, 5]
       = Inr (int_param ''basin_solsta'' [(''one'', 1)] (Some (array1d [8])),
              [Cannot_reduce (Some ''basin_solsta'')])
   \<and> subset_by_index (int_param ''basin_solsta'' [(''one'', 1)] (Some (array1d [8]))) ''nhru'' [0, 5]
       = Inr (int_param ''basin_solsta'' [(''one'', 1)] (Some (array1d [8])),
              [Cannot_reduce (Some ''basin_solsta'')])"
  using singleton_edit_refused
          [of "int_param ''basin_solsta'' [(''one'', 1)] (Some (array1d [8]))" "array1d [8]"
              "''nhru''" "[0, 5]"]
  by (simp add: int_param_def array1d_def nd_size_def)

section \<open>Checking values against the bounds\<close>

text \<open>
  C6. With data present \<^verbatim>\<open>check_values\<close> returns a boolean. It is true when the minimum
  or the maximum is unset or when either of them is a string, and it is false exactly
  when both bounds are numbers and some stored value is below the minimum or above
  the maximum.
\<close>

theorem check_values_bounds:
  fixes p :: "('a::linorder) Parameter"
  assumes "p_data p = Some a"
  shows "(\<exists>b. check_values p = Inr b)
       \<and> ((p_minimum p = None \<or> p_maximum p = None
            \<or> (\<exists>s. p_minimum p = Some (Text s)) \<or> (\<exists>s. p_maximum p = Some (Text s)))
           \<longrightarrow> check_values p = Inr True)
       \<and> (check_values p = Inr False \<longleftrightarrow>
            (\<exists>lo hi. p_minimum p = Some (Number lo) \<and> p_maximum p = Some (Number hi)
                \<and> (\<exists>x \<in> set (flat a). x < lo \<or> hi < x)))"
  using assms
  by (auto simp add: check_values_def list_all_iff not_le split: option.splits bound.splits)

theorem check_values_bounds_witness:
  "p_data ((int_param ''cov_type'' [(''nhru'', 4)] (Some (array1d [1, 0, 1, 5])))
             \<lparr>p_minimum := Some (Number 0), p_maximum := Some (Number 3)\<rparr>)
     = Some (array1d [1, 0, 1, 5])
   \<and> check_values ((int_param ''cov_type'' [(''nhru'', 4)] (Some (array1d [1, 0, 1, 5])))
             \<lparr>p_minimum := Some (Number 0), p_maximum := Some (Number 3)\<rparr>) = Inr False
   \<and> check_values ((int_param ''cov_type'' [(''nhru'', 4)] (Some (array1d [1, 0, 1, 5])))
             \<lparr>p_minimum := Some (Text ''bounded''), p_maximum := Some (Number 3)\<rparr>) = Inr True"
  using check_values_bounds
          [of "(int_param ''cov_type'' [(''nhru'', 4)] (Some (array1d [1, 0, 1, 5])))
                 \<lparr>p_minimum := Some (Number 0), p_maximum := Some (Number 3)\<rparr>"
              "array1d [1, 0, 1, 5]"]
  by (simp add: int_param_def array1d_def check_values_def)













section \<open>The modified flag\<close>




lemma norm_indices_in_range:
  assumes "\<forall>i \<in> set idx. - int n \<le> i \<and> i < int n"
  shows "norm_indices n idx = Inr (map (\<lambda>i. nat (if i < 0 then i + int n else i)) idx)"
  using assms by (induction idx) (auto simp add: norm_index_def)

lemma take1_drop: "j < length xs \<Longrightarrow> take (Suc 0) (drop j xs) = [xs ! j]"
  by (metis Cons_nth_drop_Suc take0 take_Suc_Cons)

lemma concat_singletons:
  assumes "\<forall>j \<in> set js. j < length xs"
  shows "concat (map (\<lambda>j. take (Suc 0) (drop j xs)) js) = map (\<lambda>j. xs ! j) js"
  using assms by (induction js) (simp_all add: take1_drop)

section \<open>Subsetting by index\<close>

text \<open>
  C8. On a one-dimensional Parameter with more than one element, \<^verbatim>\<open>subset_by_index\<close>
  with the name of its dimension and indices within the array (negative ones counting
  from the end) stores exactly the elements at these positions, in the order given,
  and sets the size of the dimension to their number. The witness is the scenario of
  the specification: \<open>[12, 4, 45, 26]\<close> with indices \<open>[0, 2]\<close> gives \<open>[12, 45]\<close> and
  size 2.
\<close>

theorem subset_by_index_1d:
  assumes "p_dimensions p = [(dim_name, s)]" and "p_data p = Some a"
    and "shape a = [n]" and "wf_array a" and "1 < n"
    and "\<forall>i \<in> set indices. - int n \<le> i \<and> i < int n"
  shows "subset_by_index p dim_name indices
           = Inr (p\<lparr>p_dimensions := [(dim_name, length indices)],
                    p_data := Some (array1d (map (\<lambda>i. flat a ! nat (if i < 0 then i + int n else i))
                                                 indices))\<rparr>, [])"
proof -
  let ?js = "map (\<lambda>i. nat (if i < 0 then i + int n else i)) indices"
  from assms(3,4) have len: "length (flat a) = n" by (simp add: wf_array_def)
  from assms(6) have "\<forall>j \<in> set ?js. j < length (flat a)" using len by auto
  then have "concat (map (\<lambda>j. take (Suc 0) (drop j (flat a))) ?js) = map (\<lambda>j. flat a ! j) ?js"
    by (rule concat_singletons)
  then have "take_axis0 a indices
      = Inr (array1d (map (\<lambda>i. flat a ! nat (if i < 0 then i + int n else i)) indices))"
    using assms(3) norm_indices_in_range [OF assms(6)]
    by (simp add: take_axis0_def array1d_def comp_def)
  then show ?thesis using assms(1,2,3,5)
    by (simp add: subset_by_index_def nd_size_def array1d_def dims_set_size_def)
qed

theorem subset_by_index_1d_witness:
  "p_dimensions (int_param ''poi_gage_segment'' [(''npoigages'', 4)] (Some (array1d [12, 4, 45, 26])))
     = [(''npoigages'', 4)]
   \<and> shape (array1d [12, 4, 45, 26 :: int]) = [4] \<and> wf_array (array1d [12, 4, 45, 26 :: int])
   \<and> - int 4 \<le> 0 \<and> 0 < int 4 \<and> - int 4 \<le> 2 \<and> 2 < int 4
   \<and> subset_by_index (int_param ''poi_gage_segment'' [(''npoigages'', 4)] (Some (array1d [12, 4, 45, 26])))
        ''npoigages'' [0, 2]
      = Inr (int_param ''poi_gage_segment'' [(''npoigages'', 2)] (Some (array1d [12, 45])), [])"
  using subset_by_index_1d
          [of "int_param ''poi_gage_segment'' [(''npoigages'', 4)] (Some (array1d [12, 4, 45, 26]))"
              "''npoigages''" 4 "array1d [12, 4, 45, 26]" 4 "[0, 2]"]
  by (simp add: int_param_def array1d_def wf_array_def)

lemma prod_list_one: "prod_list (s :: nat list) = 1 \<Longrightarrow> \<forall>x \<in> set s. x = 1"
  by (induction s) auto

lemma prod_list_ones: "\<forall>x \<in> set s. x = 1 \<Longrightarrow> prod_list (s :: nat list) = 1"
  by (induction s) auto

lemma concat_replicate_replicate: "concat (replicate n (replicate m x)) = replicate (n * m) x"
  by (induction n) (simp_all add: replicate_add)

lemma bcast_data_ones:
  assumes "length s = length t" and "\<forall>x \<in> set s. x = 1"
  shows "bcast_data s t [x] = replicate (prod_list t) x"
  using assms
proof (induction s t rule: list_induct2)
  case Nil
  then show ?case by simp
next
  case (Cons a s b t)
  then have a: "a = 1" and ps: "prod_list s = 1" by (simp_all add: prod_list_ones)
  from Cons have ih: "bcast_data s t [x] = replicate (prod_list t) x" by simp
  show ?case
  proof (cases "b = 1")
    case True
    with a ps ih show ?thesis by (simp add: blocks_def)
  next
    case False
    with a ih show ?thesis by (simp add: concat_replicate_replicate)
  qed
qed

lemma broadcastable_ones:
  assumes "\<forall>x \<in> set s. x = 1" and "length s \<le> length t"
  shows "broadcastable s t"
  using assms by (auto simp add: broadcastable_def list_all2_conv_all_nth)

lemma dims_add_all_distinct:
  "distinct (map fst (ds @ kvs)) \<Longrightarrow> dims_add_all ds kvs = Inr (ds @ kvs)"
  by (induction kvs arbitrary: ds) (auto simp add: dims_add_def)

section \<open>Reshaping a scalar\<close>

text \<open>
  C9. A Parameter whose only dimension is \<open>one\<close> and whose data is a single value
  (an array of one element, of rank at most the number of new dimensions) is reshaped
  to the new dimensions: the dimensions become exactly the entries of \<^verbatim>\<open>new_dims\<close>, in
  their order, and the data becomes an array of the new shape whose elements all equal
  the old value (the read-only view that \<^verbatim>\<open>np.broadcast_to\<close> returns). The names of \<^verbatim>\<open>new_dims\<close> are distinct, as the keys of an ordered
  dictionary are.
\<close>

theorem reshape_scalar:
  assumes "p_dimensions p = [(''one'', s)]" and "p_data p = Some a"
    and "wf_array a" and "nd_size a = 1"
    and "length (shape a) \<le> length new_dims" and "distinct (map fst new_dims)"
  shows "reshape p new_dims
           = Inr (p\<lparr>p_dimensions := new_dims,
                    p_data := Some \<lparr>shape = map snd new_dims,
                                    flat = replicate (prod_list (map snd new_dims)) (hd (flat a)),
                                    writeable = False\<rparr>\<rparr>,
                  [])"
proof -
  from assms(4) have ones: "\<forall>x \<in> set (shape a). x = 1"
    using prod_list_one [of "shape a"] by (simp add: nd_size_def)
  from assms(3,4) have "length (flat a) = 1" by (simp add: wf_array_def nd_size_def)
  then have fl: "flat a = [hd (flat a)]" by (cases "flat a") simp_all
  let ?t = "map snd new_dims"
  let ?pad = "replicate (length ?t - length (shape a)) 1 @ shape a"
  have "bcast_data ?pad ?t [hd (flat a)] = replicate (prod_list ?t) (hd (flat a))"
    using ones assms(5) by (intro bcast_data_ones) auto
  with fl have "bcast_data ?pad ?t (flat a) = replicate (prod_list ?t) (hd (flat a))" by simp
  moreover have "broadcastable (shape a) ?t" using ones assms(5) by (simp add: broadcastable_ones)
  ultimately have "broadcast_to a ?t
      = Inr \<lparr>shape = ?t, flat = replicate (prod_list ?t) (hd (flat a)), writeable = False\<rparr>"
    by (simp add: broadcast_to_def)
  moreover have "dims_add_all (dims_remove (p_dimensions p) ''one'') new_dims = Inr new_dims"
    using assms(1,6) dims_add_all_distinct [of "[]" new_dims] by (simp add: dims_remove_def)
  ultimately show ?thesis using assms(1,2)
    by (simp add: reshape_def dims_ndims_def dims_keys_def)
qed

theorem reshape_scalar_witness:
  "p_dimensions (int_param ''basin_solsta'' [(''one'', 1)] (Some (array1d [8]))) = [(''one'', 1)]
   \<and> wf_array (array1d [8 :: int]) \<and> nd_size (array1d [8 :: int]) = 1
   \<and> length (shape (array1d [8 :: int])) \<le> length [(''nhru'', 4 :: nat), (''nmonths'', 12)]
   \<and> distinct (map fst [(''nhru'', 4 :: nat), (''nmonths'', 12)])
   \<and> reshape (int_param ''basin_solsta'' [(''one'', 1)] (Some (array1d [8])))
        [(''nhru'', 4), (''nmonths'', 12)]
      = Inr (int_param ''basin_solsta'' [(''nhru'', 4), (''nmonths'', 12)]
               (Some \<lparr>shape = [4, 12], flat = replicate 48 8, writeable = False\<rparr>), [])"
  using reshape_scalar
          [of "int_param ''basin_solsta'' [(''one'', 1)] (Some (array1d [8]))" 1 "array1d [8]"
              "[(''nhru'', 4), (''nmonths'', 12)]"]
  by (simp add: int_param_def array1d_def wf_array_def nd_size_def)

section \<open>Updating one element\<close>




section \<open>The round trip through tolist\<close>

lemma length_table: "length (concat (map (\<lambda>j. map (f j) [0..<r]) [0..<c])) = c * r"
  by (induction c) simp_all

lemma nth_table:
  "j < c \<Longrightarrow> i < r \<Longrightarrow> concat (map (\<lambda>j. map (f j) [0..<r]) [0..<c]) ! (j * r + i) = f j i"
proof (induction c)
  case 0
  then show ?case by simp
next
  case (Suc c)
  show ?case
  proof (cases "j < c")
    case True
    have "j * r + i < c * r"
    proof -
      from Suc.prems(2) have "j * r + i < Suc j * r" by simp
      also from True have "\<dots> \<le> c * r" by (intro mult_le_mono1) simp
      finally show ?thesis .
    qed
    with True Suc show ?thesis by (simp add: nth_append length_table)
  next
    case False
    with Suc.prems have "j = c" by simp
    with Suc.prems show ?thesis by (simp add: nth_append length_table)
  qed
qed

lemma length_transpose_flat: "length (transpose_flat r c xs) = c * r"
  by (simp add: transpose_flat_def length_table)

lemma nth_transpose_flat:
  "j < c \<Longrightarrow> i < r \<Longrightarrow> transpose_flat r c xs ! (j * r + i) = xs ! (i * c + j)"
  unfolding transpose_flat_def by (rule nth_table)

lemma transpose_flat_twice:
  assumes "length xs = r * c"
  shows "transpose_flat c r (transpose_flat r c xs) = xs"
proof (rule nth_equalityI)
  show "length (transpose_flat c r (transpose_flat r c xs)) = length xs"
    using assms by (simp add: length_transpose_flat)
next
  fix k assume "k < length (transpose_flat c r (transpose_flat r c xs))"
  then have k: "k < r * c" by (simp add: length_transpose_flat)
  then have c: "0 < c" by (cases c) simp_all
  let ?j = "k div c" and ?i = "k mod c"
  have j: "?j < r" using k c by (simp add: less_mult_imp_div_less)
  have i: "?i < c" using c by simp
  have "transpose_flat c r (transpose_flat r c xs) ! (?j * c + ?i)
          = transpose_flat r c xs ! (?i * r + ?j)"
    using j i by (rule nth_transpose_flat)
  also have "\<dots> = xs ! (?j * c + ?i)" using i j by (rule nth_transpose_flat)
  finally show "transpose_flat c r (transpose_flat r c xs) ! k = xs ! k" by simp
qed

lemma set_transpose_flat:
  assumes "length xs = r * c"
  shows "set (transpose_flat r c xs) \<subseteq> set xs"
proof -
  have "i * c + j < length xs" if "i < r" "j < c" for i j
  proof -
    from that have "i * c + j < Suc i * c" by simp
    also from that have "\<dots> \<le> r * c" by (intro mult_le_mono1) simp
    finally show ?thesis using assms by simp
  qed
  then show ?thesis by (auto simp add: transpose_flat_def)
qed

lemma concat_blocks_take: "concat (blocks d n xs) = take (d * n) xs"
proof (induction d)
  case 0
  then show ?case by (simp add: blocks_def)
next
  case (Suc d)
  have "concat (blocks (Suc d) n xs) = concat (blocks d n xs) @ take n (drop (d * n) xs)"
    by (simp add: blocks_def)
  also have "\<dots> = take (d * n + n) xs" using Suc by (simp add: take_add)
  finally show ?case by (simp add: add.commute)
qed

lemma concat_blocks: "length xs = d * n \<Longrightarrow> concat (blocks d n xs) = xs"
  by (simp add: concat_blocks_take)

lemma transpose_flat_column: "length xs = n \<Longrightarrow> transpose_flat n (Suc 0) xs = xs"
  using map_nth [of xs] by (simp add: transpose_flat_def)

lemma ravel_F_1d:
  assumes "length xs = n"
  shows "ravel_F [n] xs = xs"
proof -
  have "map (ravel_F []) (blocks n (Suc 0) xs) = blocks n (Suc 0) xs"
    by (rule map_idI) simp
  with assms show ?thesis by (simp add: concat_blocks transpose_flat_column)
qed

lemma length_block:
  assumes "length xs = r * c" and "b \<in> set (blocks r c xs)"
  shows "length b = c"
proof -
  from assms(2) obtain i where i: "i < r" and b: "b = take c (drop (i * c) xs)"
    by (auto simp add: blocks_def)
  from i have "Suc i * c \<le> r * c" by (intro mult_le_mono1) simp
  then have "c \<le> r * c - i * c" by simp
  with b assms(1) show ?thesis by simp
qed

lemma ravel_F_2d:
  assumes "length xs = r * c"
  shows "ravel_F [r, c] xs = transpose_flat r c xs"
proof -
  have "ravel_F [c] b = b" if "b \<in> set (blocks r c xs)" for b
  proof (rule ravel_F_1d)
    show "length b = c" using assms that by (rule length_block)
  qed
  then have "map (ravel_F [c]) (blocks r c xs) = blocks r c xs" by (rule map_idI)
  then have inner: "concat (map (ravel_F [c]) (blocks r c xs)) = xs"
    using assms by (simp only: concat_blocks)
  have "ravel_F [r, c] xs = transpose_flat r c (concat (map (ravel_F [c]) (blocks r c xs)))"
    by (subst ravel_F.simps(2)) simp
  with inner show ?thesis by (simp only:)
qed

declare ravel_F.simps [simp del]

lemma reshape_F2_roundtrip:
  assumes "length xs = r * c" and "c \<noteq> 0"
  shows "reshape_F2 (array1d (transpose_flat r c xs)) c
           = Inr \<lparr>shape = [r, c], flat = xs, writeable = True\<rparr>"
proof -
  have len: "length (transpose_flat r c xs) = r * c"
    by (simp add: length_transpose_flat mult.commute)
  then have "ravel_F [r * c] (transpose_flat r c xs) = transpose_flat r c xs"
    by (rule ravel_F_1d)
  with assms len show ?thesis
    by (simp add: reshape_F2_def array1d_def nd_size_def ndim_def transpose_flat_twice)
qed

lemma data_setter_keeps_content:
  assumes "reconcile env p d = Inr (b, out)" and "p_data p = Some a"
    and "shape b = shape a" and "flat b = flat a"
  shows "\<exists>p' b'. data_setter env p d = Inr (p', out) \<and> p_data p' = Some b'
           \<and> shape b' = shape a \<and> flat b' = flat a \<and> p_dimensions p' = p_dimensions p"
  using assms by (simp add: data_setter_def)

text \<open>
  C2, as amended. Let a Parameter hold a well-formed array whose shape is the list of
  its declared dimension sizes, with one dimension, or with two of which the second is
  not of size 0, and let the elements already be of the declared dtype (the conversion
  of the list leaves them as they are). Then \<^verbatim>\<open>tolist()\<close> followed by assigning the list
  back returns normally, and the array stored afterwards has the shape of the original
  and the same element at every position.
\<close>

theorem tolist_roundtrip:
  assumes "p_data p = Some a" and "wf_array a" and "shape a = map snd (p_dimensions p)"
    and "length (p_dimensions p) = 1
         \<or> length (p_dimensions p) = 2 \<and> snd (p_dimensions p ! 1) \<noteq> 0"
    and "p_datatype p = Some t" and "DATATYPE_TO_DTYPE env t = Some conv"
    and "\<forall>x \<in> set (flat a). conv x = x"
  shows "\<exists>p' b. then_do (tolist p) (\<lambda>l. data_setter env p (PyList (scalars l))) = Inr (p', [])
           \<and> p_data p' = Some b \<and> shape b = shape a \<and> flat b = flat a
           \<and> p_dimensions p' = p_dimensions p"
proof -
  from assms(4) consider (one) d where "p_dimensions p = [d]"
    | (two) d0 d1 where "p_dimensions p = [d0, d1]" "snd d1 \<noteq> 0"
    by (auto simp add: length_Suc_conv numeral_2_eq_2)
  then show ?thesis
  proof cases
    case one
    from one assms(2,3) have sh: "shape a = [snd d]" and len: "length (flat a) = snd d"
      by (simp_all add: wf_array_def)
    from sh len have tl: "tolist p = Inr (flat a)"
      using assms(1) by (simp add: tolist_def ravel_F_1d)
    have "map conv (flat a) = flat a" using assms(7) by (intro map_idI) simp
    then have "to_numpy env p (PyList (scalars (flat a))) = Inr (array1d (flat a))"
      using assms(5,6) by (simp add: to_numpy_def np_array_scalars)
    with one len have "reconcile env p (PyList (scalars (flat a))) = Inr (array1d (flat a), [])"
      by (simp add: reconcile_def dims_ndims_def param_size_def nd_size_def ndim_def array1d_def)
    moreover have "shape (array1d (flat a)) = shape a" "flat (array1d (flat a)) = flat a"
      using sh len by (simp_all add: array1d_def)
    ultimately show ?thesis
      using tl assms(1) data_setter_keeps_content by fastforce
  next
    case two
    let ?r = "snd d0" and ?c = "snd d1"
    let ?l = "transpose_flat ?r ?c (flat a)"
    let ?b = "\<lparr>shape = [?r, ?c], flat = flat a, writeable = True\<rparr>"
    from two assms(2,3) have sh: "shape a = [?r, ?c]" and len: "length (flat a) = ?r * ?c"
      by (simp_all add: wf_array_def)
    from sh len have tl: "tolist p = Inr ?l"
      using assms(1) by (simp add: tolist_def ravel_F_2d)
    have "set ?l \<subseteq> set (flat a)" using len by (rule set_transpose_flat)
    with assms(7) have "map conv ?l = ?l" by (intro map_idI) auto
    then have tn: "to_numpy env p (PyList (scalars ?l)) = Inr (array1d ?l)"
      using assms(5,6) by (simp add: to_numpy_def np_array_scalars)
    have sz: "nd_size (array1d ?l) = ?r * ?c"
      by (simp add: array1d_def nd_size_def length_transpose_flat mult.commute)
    have rs: "reshape_F2 (array1d ?l) ?c = Inr ?b"
      using len two(2) by (rule reshape_F2_roundtrip)
    have "reconcile env p (PyList (scalars ?l)) = Inr (?b, [])"
      using two(1) tn sz rs
      by (simp add: reconcile_def dims_ndims_def param_size_def get_dimsize_by_index_def
          ndim_def array1d_def)
    moreover have "shape ?b = shape a" "flat ?b = flat a" using sh by simp_all
    ultimately show ?thesis
      using tl assms(1) data_setter_keeps_content by fastforce
  qed
qed

theorem tolist_roundtrip_witness:
  "then_do (tolist (int_param ''tmax_adj'' [(''nhru'', 2), (''nmonths'', 3)]
                     (Some \<lparr>shape = [2, 3], flat = [1, 2, 3, 4, 5, 6], writeable = True\<rparr>)))
     (\<lambda>l. data_setter int_env (int_param ''tmax_adj'' [(''nhru'', 2), (''nmonths'', 3)]
                     (Some \<lparr>shape = [2, 3], flat = [1, 2, 3, 4, 5, 6], writeable = True\<rparr>))
             (PyList (scalars l)))
   = Inr (int_param ''tmax_adj'' [(''nhru'', 2), (''nmonths'', 3)]
                     (Some \<lparr>shape = [2, 3], flat = [1, 2, 3, 4, 5, 6], writeable = True\<rparr>), [])"
  using tolist_roundtrip
          [of "int_param ''tmax_adj'' [(''nhru'', 2), (''nmonths'', 3)]
                     (Some \<lparr>shape = [2, 3], flat = [1, 2, 3, 4, 5, 6], writeable = True\<rparr>)"
              "\<lparr>shape = [2, 3], flat = [1, 2, 3, 4, 5, 6], writeable = True\<rparr>" 1 int_env "\<lambda>x. x"]
  by (simp add: int_param_def int_env_def wf_array_def tolist_def setter_defs np_array_scalars
      reshape_F2_def array1d_def array_equal_def np_equal_def ravel_F.simps transpose_flat_def
      blocks_def upt_conv_Cons)

text \<open>
  The claim as stated fails: the setter accepts a two-dimensional array of the right
  element count whatever its shape is. A \<open>3 \<times> 2\<close> array held by a parameter declared
  over \<open>nhru = 2\<close> and \<open>nmonths = 3\<close> comes back from the round trip as a \<open>2 \<times> 3\<close>
  array with its elements at other positions, and the Parameter is marked modified.
\<close>

theorem tolist_wrong_shape_counterexample:
  "has_correct_size (int_param ''tmax_adj'' [(''nhru'', 2), (''nmonths'', 3)]
                     (Some \<lparr>shape = [3, 2], flat = [1, 2, 3, 4, 5, 6], writeable = True\<rparr>)) = Inr True
   \<and> tolist (int_param ''tmax_adj'' [(''nhru'', 2), (''nmonths'', 3)]
                     (Some \<lparr>shape = [3, 2], flat = [1, 2, 3, 4, 5, 6], writeable = True\<rparr>))
      = Inr [1, 3, 5, 2, 4, 6]
   \<and> data_setter int_env (int_param ''tmax_adj'' [(''nhru'', 2), (''nmonths'', 3)]
                     (Some \<lparr>shape = [3, 2], flat = [1, 2, 3, 4, 5, 6], writeable = True\<rparr>))
        (PyList (scalars [1, 3, 5, 2, 4, 6]))
      = Inr ((int_param ''tmax_adj'' [(''nhru'', 2), (''nmonths'', 3)]
                     (Some \<lparr>shape = [2, 3], flat = [1, 5, 4, 3, 2, 6], writeable = True\<rparr>))
               \<lparr>p_modified := True\<rparr>, [])"
  by (simp add: int_param_def int_env_def tolist_def setter_defs np_array_scalars
      reshape_F2_def array1d_def array_equal_def np_equal_def has_correct_size_def
      ravel_F.simps transpose_flat_def blocks_def upt_conv_Cons)

end
